theory Spec2Isabelle
  imports Main
begin

section \<open>The icon generator \<open>generate_icons.py\<close>\<close>

text \<open>
  The program is one function, \<open>create_icon(size, filename)\<close>, and three calls of it.
  The function computes a few integers from \<open>size\<close> with floor division and hands them
  to the imaging library Pillow: \<open>Image.new\<close>, \<open>ImageDraw.ellipse\<close>, \<open>ImageDraw.line\<close>
  and \<open>Image.save\<close>. The library is not part of the repository, so it is a parameter
  of the model: a record of the four operations, each of which either raises (\<open>Inl\<close>)
  or returns. What the program itself decides (which calls, in which order, with which
  arguments, and what is printed) is modelled in full. What a call paints, and which
  arguments the library refuses, is not in the source: for the claims about pixels and
  about rejected sizes it is modelled from the specification, in subsections of their
  own.
\<close>

subsection \<open>Data\<close>

text \<open>Python's integers are unbounded and \<open>//\<close> rounds towards minus infinity, as
  \<open>div\<close> on \<open>int\<close> does.\<close>

type_synonym rgba = "int \<times> int \<times> int \<times> int"
type_synonym point = "int \<times> int"
type_synonym box = "int \<times> int \<times> int \<times> int"

text \<open>
  The library. \<open>'img\<close> is the image object, \<open>'data\<close> what \<open>save\<close> puts into the file,
  \<open>'e\<close> the exceptions of the library. \<open>ImageDraw.Draw(img)\<close> only wraps the image it is
  given, so the drawing operations take the image itself; they mutate it in place, which
  is the image returned here.
\<close>

record ('img, 'data, 'e) pil =
  image_new :: "string \<Rightarrow> int \<times> int \<Rightarrow> rgba \<Rightarrow> 'e + 'img"
  draw_ellipse :: "'img \<Rightarrow> box \<Rightarrow> rgba \<Rightarrow> 'e + 'img"
  draw_line :: "'img \<Rightarrow> point list \<Rightarrow> rgba \<Rightarrow> int \<Rightarrow> 'e + 'img"
  image_save :: "'img \<Rightarrow> string \<Rightarrow> string \<Rightarrow> 'e + 'data"

text \<open>What the program can change outside itself: the files it writes and the lines it
  prints.\<close>

record 'data world =
  files :: "string \<rightharpoonup> 'data"
  stdout :: "string list"

subsection \<open>Exceptions and loops\<close>

text \<open>An exception raised by a call ends the function: the rest is skipped.\<close>

definition bind_e :: "'e + 'a \<Rightarrow> ('a \<Rightarrow> 'e + 'b) \<Rightarrow> 'e + 'b" where
  "bind_e m k = (case m of Inl e \<Rightarrow> Inl e | Inr x \<Rightarrow> k x)"

text \<open>A \<open>for\<close> loop over a list of values, with the loop body acting on the state.\<close>

fun for_each :: "'a list \<Rightarrow> ('a \<Rightarrow> 's \<Rightarrow> 'e + 's) \<Rightarrow> 's \<Rightarrow> 'e + 's" where
  "for_each [] body s = Inr s"
| "for_each (i # is) body s = bind_e (body i s) (for_each is body)"

text \<open>\<open>range(n)\<close> for an integer \<open>n\<close>: empty when \<open>n \<le> 0\<close>.\<close>

definition py_range :: "int \<Rightarrow> nat list" where
  "py_range n = [0 ..< nat n]"

subsection \<open>\<open>create_icon\<close>\<close>

text \<open>
  Lines 3 to 40 of the source, statement by statement (the parameter \<open>size\<close> is
  written \<open>sz\<close>, since \<open>size\<close> is a constant of HOL). The list \<open>points\<close> has four
  elements, so the indices \<open>i\<close> and \<open>i + 1\<close> of the loop are always in range.
  \<open>img.save\<close> writes the file or raises; \<open>print\<close> appends one line.
\<close>

definition create_icon ::
  "('img, 'data, 'e) pil \<Rightarrow> int \<Rightarrow> string \<Rightarrow> 'data world \<Rightarrow> 'e + 'data world" where
  "create_icon lib sz filename w =
     bind_e (image_new lib ''RGBA'' (sz, sz) (0, 0, 0, 0)) (\<lambda>img.
     let margin = sz div 8;
         line_width = max 2 (sz div 16)
     in
     bind_e (draw_ellipse lib img (margin, margin, sz - margin, sz - margin)
               (255, 152, 0, 255)) (\<lambda>img.
     let center = sz div 2;
         points = [
           (margin + sz div 6, center + sz div 6),
           (center - sz div 10, center - sz div 10),
           (center + sz div 10, center),
           (sz - margin - sz div 6, center - sz div 4)]
     in
     bind_e (for_each (py_range (int (length points) - 1))
               (\<lambda>i img. draw_line lib img [points ! i, points ! (i + 1)]
                           (255, 255, 255, 255) line_width) img) (\<lambda>img.
     let y_line = center - sz div 8
     in
     bind_e (draw_line lib img
               [(margin + sz div 8, y_line), (sz - margin - sz div 8, y_line)]
               (255, 255, 255, 200) (max 1 (line_width div 2))) (\<lambda>img.
     bind_e (image_save lib img filename ''PNG'') (\<lambda>data.
     Inr (w\<lparr>files := (files w)(filename \<mapsto> data),
            stdout := stdout w @ [''Created '' @ filename]\<rparr>))))))"

subsection \<open>The top level\<close>




subsection \<open>Observing the calls\<close>

text \<open>
  To state which calls \<open>create_icon\<close> makes, the library is instantiated with one that
  paints nothing and keeps the list of the calls made on an image, in order. It never
  raises, and \<open>save\<close> stores that list together with the format.
\<close>

datatype call =
  Image_New string "int \<times> int" rgba
| Draw_Ellipse box rgba
| Draw_Line "point list" rgba int

definition recorder :: "(call list, call list \<times> string, unit) pil" where
  "recorder = \<lparr>
     image_new = (\<lambda>mode sz color. Inr [Image_New mode sz color]),
     draw_ellipse = (\<lambda>img xy fill. Inr (img @ [Draw_Ellipse xy fill])),
     draw_line = (\<lambda>img xy fill width. Inr (img @ [Draw_Line xy fill width])),
     image_save = (\<lambda>img fp format. Inr (img, format))\<rparr>"

definition no_world :: "(call list \<times> string) world" where
  "no_world = \<lparr>files = Map.empty, stdout = []\<rparr>"

text \<open>The calls \<open>create_icon(size, _)\<close> has made on its image when it saves it.\<close>

definition calls_made :: "int \<Rightarrow> call list" where
  "calls_made sz =
     (case create_icon recorder sz ''icon.png'' no_world of
        Inl e \<Rightarrow> []
      | Inr w \<Rightarrow> (case files w ''icon.png'' of None \<Rightarrow> [] | Some (cs, format) \<Rightarrow> cs))"


text \<open>The line calls of one colour: end points and width.\<close>

definition lines_of :: "rgba \<Rightarrow> call list \<Rightarrow> (point list \<times> int) list" where
  "lines_of fill cs =
     concat (map (\<lambda>c. case c of
         Draw_Line xy fill' width \<Rightarrow> if fill' = fill then [(xy, width)] else []
       | _ \<Rightarrow> []) cs)"

text \<open>The vertices that the line calls of opaque white join: the points of the first call,
  then the end point of each later one.\<close>

definition polyline :: "call list \<Rightarrow> point list" where
  "polyline cs =
     (case lines_of (255, 255, 255, 255) cs of
        [] \<Rightarrow> []
      | (xy, width) # rest \<Rightarrow> xy @ concat (map (\<lambda>(xy, width). tl xy) rest))"

text \<open>The calls saved under a file name by one run of \<open>create_icon\<close> with the recording
  library, whatever the name and the world it started from; none if the run raised.\<close>

definition saved_calls :: "'e + (call list \<times> string) world \<Rightarrow> string \<Rightarrow> call list" where
  "saved_calls r filename =
     (case r of
        Inl e \<Rightarrow> []
      | Inr w \<Rightarrow> (case files w filename of None \<Rightarrow> [] | Some (cs, format) \<Rightarrow> cs))"

subsection \<open>What the calls paint\<close>

text \<open>
  Modelled from the spec: the rasteriser of Pillow's \<open>ImageDraw.ellipse\<close>, which is not in
  the repository. The spec fills the ellipse inscribed in the square
  \<open>[margin, margin] .. [size - margin, size - margin]\<close>: a point is painted when it lies in
  the closed ellipse whose axes are the sides of the box. With \<open>a\<close> and \<open>h\<close> the sides and
  \<open>(X, Y)\<close> twice the offset from the centre of the box, that is
  \<open>(X/a)\<^sup>2 + (Y/h)\<^sup>2 \<le> 1\<close>, written without division. An empty box paints nothing.
\<close>

definition in_ellipse :: "box \<Rightarrow> point \<Rightarrow> bool" where
  "in_ellipse xy p =
     (case xy of (x0, y0, x1, y1) \<Rightarrow>
        let a = x1 - x0; h = y1 - y0;
            X = 2 * fst p - (x0 + x1); Y = 2 * snd p - (y0 + y1)
        in 0 < a \<and> 0 < h \<and> (X * h)\<^sup>2 + (Y * a)\<^sup>2 \<le> (a * h)\<^sup>2)"

text \<open>
  Modelled from the spec: the rasteriser of Pillow's \<open>ImageDraw.line\<close>, which is not in the
  repository. The spec draws line segments of width \<open>stroke\<close>: a point is painted when
  its distance from the segment is at most half the width. With \<open>d = b - a\<close>,
  \<open>u = p - a\<close> and \<open>t = u \<cdot> d\<close>, the nearest point of the segment is \<open>a\<close> when \<open>t \<le> 0\<close>,
  \<open>b\<close> when \<open>t \<ge> |d|\<^sup>2\<close>, and otherwise the foot of the perpendicular, at distance
  \<open>|d \<times> u| / |d|\<close>. All three comparisons are written in squares, without division or
  roots.
\<close>

definition near_segment :: "point \<Rightarrow> point \<Rightarrow> int \<Rightarrow> point \<Rightarrow> bool" where
  "near_segment a b width p =
     (let dx = fst b - fst a; dy = snd b - snd a;
          ux = fst p - fst a; uy = snd p - snd a;
          vx = fst p - fst b; vy = snd p - snd b;
          t = ux * dx + uy * dy;
          D = dx * dx + dy * dy
      in if t \<le> 0 then 4 * (ux * ux + uy * uy) \<le> width * width
         else if D \<le> t then 4 * (vx * vx + vy * vy) \<le> width * width
         else 4 * (dx * uy - dy * ux)\<^sup>2 \<le> width * width * D)"

text \<open>Modelled from the spec: a line call paints the segments that join its points in
  order (here always one segment).\<close>

fun in_stroke :: "point list \<Rightarrow> int \<Rightarrow> point \<Rightarrow> bool" where
  "in_stroke (a # b # ps) width p = (near_segment a b width p \<or> in_stroke (b # ps) width p)"
| "in_stroke ps width p = False"

text \<open>
  Modelled from the spec: the effect of one call on the pixel at a point of the canvas.
  A new image has its background colour everywhere; a drawing call gives the pixels it
  paints its fill colour and leaves the others as they are.
\<close>

definition paint :: "point \<Rightarrow> rgba \<Rightarrow> call \<Rightarrow> rgba" where
  "paint p old c =
     (case c of
        Image_New mode sz color \<Rightarrow> color
      | Draw_Ellipse xy fill \<Rightarrow> if in_ellipse xy p then fill else old
      | Draw_Line xy fill width \<Rightarrow> if in_stroke xy width p then fill else old)"

text \<open>Modelled from the spec: the pixel at a point after a list of calls, made in
  order.\<close>

definition pixel :: "call list \<Rightarrow> point \<Rightarrow> rgba" where
  "pixel cs p = foldl (paint p) (0, 0, 0, 0) cs"

subsection \<open>What the library refuses\<close>

text \<open>
  Modelled from the spec: the argument checks of Pillow, which is not in the repository.
  The spec has the renderer fail with an invalid-argument condition when the size is
  not positive. \<open>create_icon\<close> has no check of its own, so the condition is the
  library's, Python's \<open>ValueError\<close>: \<open>Image.new\<close> refuses a negative dimension, and \<open>save\<close>
  refuses an image one of whose dimensions is zero, without writing a file. Otherwise
  this library records the calls as \<open>recorder\<close> does.
\<close>

datatype pil_error = ValueError

definition empty_image :: "call list \<Rightarrow> bool" where
  "empty_image img =
     (case img of
        Image_New mode (width, height) color # rest \<Rightarrow> width = 0 \<or> height = 0
      | _ \<Rightarrow> False)"

definition pillow :: "(call list, call list \<times> string, pil_error) pil" where
  "pillow = \<lparr>
     image_new = (\<lambda>mode sz color.
       if fst sz < 0 \<or> snd sz < 0 then Inl ValueError else Inr [Image_New mode sz color]),
     draw_ellipse = (\<lambda>img xy fill. Inr (img @ [Draw_Ellipse xy fill])),
     draw_line = (\<lambda>img xy fill width. Inr (img @ [Draw_Line xy fill width])),
     image_save = (\<lambda>img fp format.
       if empty_image img then Inl ValueError else Inr (img, format))\<rparr>"


section \<open>Properties\<close>

subsection \<open>Auxiliary facts\<close>

lemma bind_e_Inr: "bind_e (Inr x) k = k x"
  by (simp add: bind_e_def)


lemma bind_e_assoc: "bind_e (bind_e m f) g = bind_e m (\<lambda>x. bind_e (f x) g)"
  by (cases m) (simp_all add: bind_e_def)

lemma py_range_3: "py_range 3 = [0, 1, 2]"
  by (simp add: py_range_def upt_rec)

text \<open>With the recording library, \<open>create_icon\<close> saves this list of calls.\<close>

lemma create_icon_recorder:
  "create_icon recorder sz filename w =
     Inr (w\<lparr>files := (files w)(filename \<mapsto>
              ([Image_New ''RGBA'' (sz, sz) (0, 0, 0, 0),
                Draw_Ellipse (sz div 8, sz div 8, sz - sz div 8, sz - sz div 8)
                  (255, 152, 0, 255),
                Draw_Line [(sz div 8 + sz div 6, sz div 2 + sz div 6),
                           (sz div 2 - sz div 10, sz div 2 - sz div 10)]
                  (255, 255, 255, 255) (max 2 (sz div 16)),
                Draw_Line [(sz div 2 - sz div 10, sz div 2 - sz div 10),
                           (sz div 2 + sz div 10, sz div 2)]
                  (255, 255, 255, 255) (max 2 (sz div 16)),
                Draw_Line [(sz div 2 + sz div 10, sz div 2),
                           (sz - sz div 8 - sz div 6, sz div 2 - sz div 4)]
                  (255, 255, 255, 255) (max 2 (sz div 16)),
                Draw_Line [(sz div 8 + sz div 8, sz div 2 - sz div 8),
                           (sz - sz div 8 - sz div 8, sz div 2 - sz div 8)]
                  (255, 255, 255, 200) (max 1 (max 2 (sz div 16) div 2))],
               ''PNG'')),
            stdout := stdout w @ [''Created '' @ filename]\<rparr>)"
  by (simp add: create_icon_def recorder_def Let_def py_range_3 bind_e_Inr)

lemma calls_made_eq:
  "calls_made sz =
     [Image_New ''RGBA'' (sz, sz) (0, 0, 0, 0),
      Draw_Ellipse (sz div 8, sz div 8, sz - sz div 8, sz - sz div 8) (255, 152, 0, 255),
      Draw_Line [(sz div 8 + sz div 6, sz div 2 + sz div 6),
                 (sz div 2 - sz div 10, sz div 2 - sz div 10)]
        (255, 255, 255, 255) (max 2 (sz div 16)),
      Draw_Line [(sz div 2 - sz div 10, sz div 2 - sz div 10),
                 (sz div 2 + sz div 10, sz div 2)]
        (255, 255, 255, 255) (max 2 (sz div 16)),
      Draw_Line [(sz div 2 + sz div 10, sz div 2),
                 (sz - sz div 8 - sz div 6, sz div 2 - sz div 4)]
        (255, 255, 255, 255) (max 2 (sz div 16)),
      Draw_Line [(sz div 8 + sz div 8, sz div 2 - sz div 8),
                 (sz - sz div 8 - sz div 8, sz div 2 - sz div 8)]
        (255, 255, 255, 200) (max 1 (max 2 (sz div 16) div 2))]"
  by (simp add: calls_made_def create_icon_recorder no_world_def)

lemma polyline_calls_made:
  "polyline (calls_made sz) =
     [(sz div 8 + sz div 6, sz div 2 + sz div 6),
      (sz div 2 - sz div 10, sz div 2 - sz div 10),
      (sz div 2 + sz div 10, sz div 2),
      (sz - sz div 8 - sz div 6, sz div 2 - sz div 4)]"
  by (simp add: calls_made_eq lines_of_def polyline_def)



text \<open>The library of the previous section refuses nothing when the size is positive: it
  then behaves as the recording library.\<close>

lemma create_icon_pillow_positive:
  assumes "0 < sz"
  shows "create_icon pillow sz filename w =
    Inr (w\<lparr>files := (files w)(filename \<mapsto> (calls_made sz, ''PNG'')),
           stdout := stdout w @ [''Created '' @ filename]\<rparr>)"
  using assms
  by (simp add: create_icon_def pillow_def Let_def py_range_3 bind_e_def empty_image_def
      calls_made_eq)

text \<open>Floor division by a positive numeral, as two linear bounds.\<close>

lemma div_bounds:
  fixes sz :: int
  shows "8 * (sz div 8) \<le> sz" "sz < 8 * (sz div 8) + 8"
    "6 * (sz div 6) \<le> sz" "sz < 6 * (sz div 6) + 6"
    "10 * (sz div 10) \<le> sz" "sz < 10 * (sz div 10) + 10"
    "2 * (sz div 2) \<le> sz" "sz < 2 * (sz div 2) + 2"
  by presburger+

lemma sorted_wrt_4:
  fixes a b c d :: int
  shows "a < b \<Longrightarrow> b < c \<Longrightarrow> c < d \<Longrightarrow> sorted_wrt (<) [a, b, c, d]"
  by auto

lemma saved_calls_recorder:
  "saved_calls (create_icon recorder sz filename w) filename = calls_made sz"
  by (simp add: saved_calls_def create_icon_recorder calls_made_eq)

text \<open>Squares: from \<open>4 x\<^sup>2 \<le> w\<^sup>2\<close> to \<open>|2 x| \<le> w\<close>.\<close>

lemma half_bound:
  fixes x w :: int
  assumes "4 * (x * x) \<le> w * w" "0 \<le> w"
  shows "2 * x \<le> w" "- w \<le> 2 * x"
proof -
  have "(2 * x)\<^sup>2 \<le> w\<^sup>2"
    using assms(1) by (simp add: power2_eq_square)
  then have "\<bar>2 * x\<bar> \<le> \<bar>w\<bar>"
    by (simp only: abs_le_square_iff)
  then show "2 * x \<le> w" "- w \<le> 2 * x"
    using assms(2) by linarith+
qed

lemma drop_summand:
  fixes A B C :: int
  shows "0 \<le> A \<Longrightarrow> 0 \<le> B \<Longrightarrow> 4 * (A + B) \<le> C \<Longrightarrow> 4 * A \<le> C \<and> 4 * B \<le> C"
  by simp

lemma cap_bound:
  fixes ux uy w :: int
  assumes "4 * (ux * ux + uy * uy) \<le> w * w" "0 \<le> w"
  shows "2 * ux \<le> w" "- w \<le> 2 * ux" "2 * uy \<le> w" "- w \<le> 2 * uy"
proof -
  have nn: "0 \<le> ux * ux" "0 \<le> uy * uy" by simp_all
  from drop_summand [OF nn assms(1)]
  have x: "4 * (ux * ux) \<le> w * w" and y: "4 * (uy * uy) \<le> w * w" by simp_all
  show "2 * ux \<le> w" "- w \<le> 2 * ux" "2 * uy \<le> w" "- w \<le> 2 * uy"
    using half_bound [OF x assms(2)] half_bound [OF y assms(2)] by simp_all
qed

lemma side_bound:
  fixes t D dx dy ux cr w :: int
  assumes w: "0 \<le> w" and t: "0 < t" "t < D"
    and D: "D = dx * dx + dy * dy"
    and ux: "D * ux = t * dx - cr * dy"
    and cr: "4 * cr\<^sup>2 \<le> w * w * D"
  shows "2 * ux \<le> 2 * max 0 dx + w" and "2 * min 0 dx - w \<le> 2 * ux"
proof -
  have Dpos: "0 < D" using t by simp
  have "dy\<^sup>2 \<le> D" unfolding D by (simp add: power2_eq_square)
  then have "(4 * cr\<^sup>2) * dy\<^sup>2 \<le> (w * w * D) * D"
    using mult_mono [of "4 * cr\<^sup>2" "w * w * D" "dy\<^sup>2" D] cr Dpos w by simp
  then have "4 * ((cr * dy) * (cr * dy)) \<le> (w * D) * (w * D)"
    by (simp add: power2_eq_square algebra_simps)
  moreover have "0 \<le> w * D" using w Dpos by simp
  ultimately have b: "2 * (cr * dy) \<le> w * D" "- (w * D) \<le> 2 * (cr * dy)"
    by (rule half_bound)+
  have up: "t * dx \<le> D * max 0 dx"
  proof (cases "0 \<le> dx")
    case True
    then have "t * dx \<le> D * dx" using t by (intro mult_right_mono) simp_all
    then show ?thesis using True by (simp add: max_def)
  next
    case False
    then have "t * dx \<le> 0" using t by (simp add: mult_le_0_iff)
    then show ?thesis using False by (simp add: max_def)
  qed
  have lo: "D * min 0 dx \<le> t * dx"
  proof (cases "0 \<le> dx")
    case True
    then have "0 \<le> t * dx" using t by simp
    then show ?thesis using True by (simp add: min_def)
  next
    case False
    then have "D * dx \<le> t * dx" using t by (intro mult_right_mono_neg) simp_all
    then show ?thesis using False by (simp add: min_def)
  qed
  have "D * (2 * ux) \<le> D * (2 * max 0 dx + w)"
    using ux b up by (simp add: algebra_simps)
  then show "2 * ux \<le> 2 * max 0 dx + w"
    using Dpos by simp
  have "D * (2 * min 0 dx - w) \<le> D * (2 * ux)"
    using ux b lo by (simp add: algebra_simps)
  then show "2 * min 0 dx - w \<le> 2 * ux"
    using Dpos by simp
qed

text \<open>A point painted by a stroke lies in the box of the segment, widened by half the
  width on each side.\<close>

lemma near_segment_box:
  assumes near: "near_segment (ax, ay) (bx, by) w (px, py)" and w: "0 \<le> w"
  shows "2 * min ax bx - w \<le> 2 * px" "2 * px \<le> 2 * max ax bx + w"
    "2 * min ay by - w \<le> 2 * py" "2 * py \<le> 2 * max ay by + w"
proof -
  define dx dy ux uy vx vy where "dx = bx - ax" and "dy = by - ay"
    and "ux = px - ax" and "uy = py - ay" and "vx = px - bx" and "vy = py - by"
  define t D cr where "t = ux * dx + uy * dy" and "D = dx * dx + dy * dy"
    and "cr = dx * uy - dy * ux"
  note defs = dx_def dy_def ux_def uy_def vx_def vy_def
  have cases:
    "if t \<le> 0 then 4 * (ux * ux + uy * uy) \<le> w * w
     else if D \<le> t then 4 * (vx * vx + vy * vy) \<le> w * w
     else 4 * cr\<^sup>2 \<le> w * w * D"
    using near unfolding near_segment_def Let_def t_def D_def cr_def defs fst_conv snd_conv .
  have "(2 * min ax bx - w \<le> 2 * px \<and> 2 * px \<le> 2 * max ax bx + w)
      \<and> (2 * min ay by - w \<le> 2 * py \<and> 2 * py \<le> 2 * max ay by + w)"
  proof (cases "t \<le> 0")
    case True
    with cases have "4 * (ux * ux + uy * uy) \<le> w * w" by simp
    from cap_bound [OF this w] show ?thesis
      unfolding defs by (auto simp: min_def max_def)
  next
    case False
    show ?thesis
    proof (cases "D \<le> t")
      case True
      with False cases have "4 * (vx * vx + vy * vy) \<le> w * w" by simp
      from cap_bound [OF this w] show ?thesis
        unfolding defs by (auto simp: min_def max_def)
    next
      case inner: False
      with False cases have cr: "4 * cr\<^sup>2 \<le> w * w * D" by simp
      have t: "0 < t" "t < D" using False inner by simp_all
      have x: "D * ux = t * dx - cr * dy"
        by (simp add: t_def D_def cr_def algebra_simps)
      have y: "D * uy = t * dy - (- cr) * dx"
        by (simp add: t_def D_def cr_def algebra_simps)
      have D': "D = dy * dy + dx * dx" by (simp add: D_def)
      have cr': "4 * (- cr)\<^sup>2 \<le> w * w * D" using cr by simp
      from side_bound [OF w t D_def x cr] side_bound [OF w t D' y cr']
      show ?thesis
        unfolding defs by (auto simp: min_def max_def)
    qed
  qed
  then show "2 * min ax bx - w \<le> 2 * px" "2 * px \<le> 2 * max ax bx + w"
    "2 * min ay by - w \<le> 2 * py" "2 * py \<le> 2 * max ay by + w"
    by simp_all
qed

lemma far_left:
  "0 \<le> w \<Longrightarrow> px + px + w < ax + ax \<Longrightarrow> px + px + w < bx + bx
    \<Longrightarrow> \<not> near_segment (ax, ay) (bx, by) w (px, py)"
  using near_segment_box(1) [of ax ay bx "by" w px py] by (auto simp: min_def split: if_splits)


lemma far_above:
  "0 \<le> w \<Longrightarrow> py + py + w < ay + ay \<Longrightarrow> py + py + w < by + by
    \<Longrightarrow> \<not> near_segment (ax, ay) (bx, by) w (px, py)"
  using near_segment_box(3) [of ax ay bx "by" w px py] by (auto simp: min_def split: if_splits)

lemma far_below:
  "0 \<le> w \<Longrightarrow> ay + ay + w < py + py \<Longrightarrow> by + by + w < py + py
    \<Longrightarrow> \<not> near_segment (ax, ay) (bx, by) w (px, py)"
  using near_segment_box(4) [of ax ay bx "by" w px py] by (auto simp: max_def split: if_splits)

lemma pixel_calls_made:
  "pixel (calls_made sz) p =
     (let margin = sz div 8; stroke = max 2 (sz div 16); center = sz div 2;
          P0 = (margin + sz div 6, center + sz div 6);
          P1 = (center - sz div 10, center - sz div 10);
          P2 = (center + sz div 10, center);
          P3 = (sz - margin - sz div 6, center - sz div 4);
          y_line = center - sz div 8
      in if near_segment (margin + sz div 8, y_line) (sz - margin - sz div 8, y_line)
              (max 1 (stroke div 2)) p then (255, 255, 255, 200)
         else if near_segment P2 P3 stroke p \<or> near_segment P1 P2 stroke p
              \<or> near_segment P0 P1 stroke p then (255, 255, 255, 255)
         else if in_ellipse (margin, margin, sz - margin, sz - margin) p
         then (255, 152, 0, 255)
         else (0, 0, 0, 0))"
  by (simp add: pixel_def calls_made_eq paint_def Let_def)

lemma div_bounds_more:
  fixes sz :: int
  shows "16 * (sz div 16) \<le> sz" "sz < 16 * (sz div 16) + 16"
    "4 * (sz div 4) \<le> sz" "sz < 4 * (sz div 4) + 4"
  by presburger+

lemma small_quotients:
  fixes sz :: int
  assumes "8 \<le> sz"
  shows "1 \<le> sz div 8" "1 \<le> sz div 6"
  using assms by presburger+

lemma width_bounds:
  fixes sz w w' :: int
  assumes sz: "8 \<le> sz" and w: "w = max 2 (sz div 16)" and w': "w' = max 1 (w div 2)"
  shows "2 \<le> w" "16 * w \<le> sz + 24" "1 \<le> w'" "2 * w' \<le> w + 1"
proof -
  show "2 \<le> w" by (simp add: w)
  then show "2 * w' \<le> w + 1"
    using div_bounds(7) [of w] by (simp add: w' max_def)
  show "16 * w \<le> sz + 24"
    using sz div_bounds_more(1) [of sz] by (simp add: w max_def)
  show "1 \<le> w'" by (simp add: w')
qed

lemma lines_right_of_left_edge:
  fixes sz w w' :: int
  assumes sz: "8 \<le> sz" and w: "w = max 2 (sz div 16)" and w': "w' = max 1 (w div 2)"
  shows "\<not> near_segment (sz div 8 + sz div 6, sz div 2 + sz div 6)
            (sz div 2 - sz div 10, sz div 2 - sz div 10) w (0, py)"
    and "\<not> near_segment (sz div 2 - sz div 10, sz div 2 - sz div 10)
            (sz div 2 + sz div 10, sz div 2) w (0, py)"
    and "\<not> near_segment (sz div 2 + sz div 10, sz div 2)
            (sz - sz div 8 - sz div 6, sz div 2 - sz div 4) w (0, py)"
    and "\<not> near_segment (sz div 8 + sz div 8, sz div 2 - sz div 8)
            (sz - sz div 8 - sz div 8, sz div 2 - sz div 8) w' (0, py)"
proof -
  note wb = width_bounds [OF sz w w']
  note b8 = div_bounds(1,2) [of sz] and b6 = div_bounds(3,4) [of sz]
    and b10 = div_bounds(5,6) [of sz] and b2 = div_bounds(7,8) [of sz]
    and q = small_quotients [OF sz]
  have w0: "0 \<le> w" "0 \<le> w'" using wb by simp_all
  have x1: "0 + 0 + w < (sz div 8 + sz div 6) + (sz div 8 + sz div 6)"
    using sz wb(2) b8(2) q(2) by linarith
  have x2: "0 + 0 + w < (sz div 2 - sz div 10) + (sz div 2 - sz div 10)"
    using sz wb(2) b2(2) b10(1) by linarith
  have x3: "0 + 0 + w < (sz div 2 + sz div 10) + (sz div 2 + sz div 10)"
    using sz wb(2) b2(2) b10(2) by linarith
  have x4: "0 + 0 + w < (sz - sz div 8 - sz div 6) + (sz - sz div 8 - sz div 6)"
    using sz wb(2) b8(1) b6(1) by linarith
  have x5: "0 + 0 + w' < (sz div 8 + sz div 8) + (sz div 8 + sz div 8)"
    using wb(2,4) b8(2) q(1) by linarith
  have x6: "0 + 0 + w' < (sz - sz div 8 - sz div 8) + (sz - sz div 8 - sz div 8)"
    using sz wb(2,4) b8(1) by linarith
  show "\<not> near_segment (sz div 8 + sz div 6, sz div 2 + sz div 6)
            (sz div 2 - sz div 10, sz div 2 - sz div 10) w (0, py)"
    by (rule far_left [OF w0(1) x1 x2])
  show "\<not> near_segment (sz div 2 - sz div 10, sz div 2 - sz div 10)
            (sz div 2 + sz div 10, sz div 2) w (0, py)"
    by (rule far_left [OF w0(1) x2 x3])
  show "\<not> near_segment (sz div 2 + sz div 10, sz div 2)
            (sz - sz div 8 - sz div 6, sz div 2 - sz div 4) w (0, py)"
    by (rule far_left [OF w0(1) x3 x4])
  show "\<not> near_segment (sz div 8 + sz div 8, sz div 2 - sz div 8)
            (sz - sz div 8 - sz div 8, sz div 2 - sz div 8) w' (0, py)"
    by (rule far_left [OF w0(2) x5 x6])
qed

lemma lines_below_top_edge:
  fixes sz w w' :: int
  assumes sz: "8 \<le> sz" and w: "w = max 2 (sz div 16)" and w': "w' = max 1 (w div 2)"
  shows "\<not> near_segment (sz div 8 + sz div 6, sz div 2 + sz div 6)
            (sz div 2 - sz div 10, sz div 2 - sz div 10) w (px, 0)"
    and "\<not> near_segment (sz div 2 - sz div 10, sz div 2 - sz div 10)
            (sz div 2 + sz div 10, sz div 2) w (px, 0)"
    and "\<not> near_segment (sz div 2 + sz div 10, sz div 2)
            (sz - sz div 8 - sz div 6, sz div 2 - sz div 4) w (px, 0)"
    and "\<not> near_segment (sz div 8 + sz div 8, sz div 2 - sz div 8)
            (sz - sz div 8 - sz div 8, sz div 2 - sz div 8) w' (px, 0)"
proof -
  note wb = width_bounds [OF sz w w']
  note b8 = div_bounds(1,2) [of sz] and b6 = div_bounds(3,4) [of sz]
    and b10 = div_bounds(5,6) [of sz] and b2 = div_bounds(7,8) [of sz]
    and b4 = div_bounds_more(3,4) [of sz]
  have w0: "0 \<le> w" "0 \<le> w'" using wb by simp_all
  have y1: "0 + 0 + w < (sz div 2 + sz div 6) + (sz div 2 + sz div 6)"
    using sz wb(2) b2(2) b6(2) by linarith
  have y2: "0 + 0 + w < (sz div 2 - sz div 10) + (sz div 2 - sz div 10)"
    using sz wb(2) b2(2) b10(1) by linarith
  have y3: "0 + 0 + w < sz div 2 + sz div 2"
    using sz wb(2) b2(2) by linarith
  have y4: "0 + 0 + w < (sz div 2 - sz div 4) + (sz div 2 - sz div 4)"
    using sz wb(2) b2(2) b4(1) by linarith
  have y5: "0 + 0 + w' < (sz div 2 - sz div 8) + (sz div 2 - sz div 8)"
    using sz wb(2,4) b2(2) b8(1) by linarith
  show "\<not> near_segment (sz div 8 + sz div 6, sz div 2 + sz div 6)
            (sz div 2 - sz div 10, sz div 2 - sz div 10) w (px, 0)"
    by (rule far_above [OF w0(1) y1 y2])
  show "\<not> near_segment (sz div 2 - sz div 10, sz div 2 - sz div 10)
            (sz div 2 + sz div 10, sz div 2) w (px, 0)"
    by (rule far_above [OF w0(1) y2 y3])
  show "\<not> near_segment (sz div 2 + sz div 10, sz div 2)
            (sz - sz div 8 - sz div 6, sz div 2 - sz div 4) w (px, 0)"
    by (rule far_above [OF w0(1) y3 y4])
  show "\<not> near_segment (sz div 8 + sz div 8, sz div 2 - sz div 8)
            (sz - sz div 8 - sz div 8, sz div 2 - sz div 8) w' (px, 0)"
    by (rule far_above [OF w0(2) y5 y5])
qed

lemma lines_above_bottom_edge:
  fixes sz w w' :: int
  assumes sz: "8 \<le> sz" and w: "w = max 2 (sz div 16)" and w': "w' = max 1 (w div 2)"
  shows "\<not> near_segment (sz div 8 + sz div 6, sz div 2 + sz div 6)
            (sz div 2 - sz div 10, sz div 2 - sz div 10) w (px, sz - 1)"
    and "\<not> near_segment (sz div 2 - sz div 10, sz div 2 - sz div 10)
            (sz div 2 + sz div 10, sz div 2) w (px, sz - 1)"
    and "\<not> near_segment (sz div 2 + sz div 10, sz div 2)
            (sz - sz div 8 - sz div 6, sz div 2 - sz div 4) w (px, sz - 1)"
    and "\<not> near_segment (sz div 8 + sz div 8, sz div 2 - sz div 8)
            (sz - sz div 8 - sz div 8, sz div 2 - sz div 8) w' (px, sz - 1)"
proof -
  note wb = width_bounds [OF sz w w']
  note b8 = div_bounds(1,2) [of sz] and b6 = div_bounds(3,4) [of sz]
    and b10 = div_bounds(5,6) [of sz] and b2 = div_bounds(7,8) [of sz]
    and b4 = div_bounds_more(3,4) [of sz]
  have w0: "0 \<le> w" "0 \<le> w'" using wb by simp_all
  have u1: "(sz div 2 + sz div 6) + (sz div 2 + sz div 6) + w < (sz - 1) + (sz - 1)"
    using sz wb(2) b2(1) b6(1) by linarith
  have u2: "(sz div 2 - sz div 10) + (sz div 2 - sz div 10) + w < (sz - 1) + (sz - 1)"
    using sz wb(2) b2(1) b10(2) by linarith
  have u3: "sz div 2 + sz div 2 + w < (sz - 1) + (sz - 1)"
    using sz wb(2) b2(1) by linarith
  have u4: "(sz div 2 - sz div 4) + (sz div 2 - sz div 4) + w < (sz - 1) + (sz - 1)"
    using sz wb(2) b2(1) b4(2) by linarith
  have u5: "(sz div 2 - sz div 8) + (sz div 2 - sz div 8) + w' < (sz - 1) + (sz - 1)"
    using sz wb(2,4) b2(1) b8(2) by linarith
  show "\<not> near_segment (sz div 8 + sz div 6, sz div 2 + sz div 6)
            (sz div 2 - sz div 10, sz div 2 - sz div 10) w (px, sz - 1)"
    by (rule far_below [OF w0(1) u1 u2])
  show "\<not> near_segment (sz div 2 - sz div 10, sz div 2 - sz div 10)
            (sz div 2 + sz div 10, sz div 2) w (px, sz - 1)"
    by (rule far_below [OF w0(1) u2 u3])
  show "\<not> near_segment (sz div 2 + sz div 10, sz div 2)
            (sz - sz div 8 - sz div 6, sz div 2 - sz div 4) w (px, sz - 1)"
    by (rule far_below [OF w0(1) u3 u4])
  show "\<not> near_segment (sz div 8 + sz div 8, sz div 2 - sz div 8)
            (sz - sz div 8 - sz div 8, sz div 2 - sz div 8) w' (px, sz - 1)"
    by (rule far_below [OF w0(2) u5 u5])
qed

lemma corner_outside_ellipse:
  fixes sz :: int
  assumes sz: "8 \<le> sz"
    and px: "px = 0 \<or> px = sz - 1" and py: "py = 0 \<or> py = sz - 1"
  shows "\<not> in_ellipse (sz div 8, sz div 8, sz - sz div 8, sz - sz div 8) (px, py)"
proof -
  define s where "s = sz - sz div 8 - sz div 8"
  define X Y where "X = 2 * px - (sz div 8 + (sz - sz div 8))"
    and "Y = 2 * py - (sz div 8 + (sz - sz div 8))"
  have m: "1 \<le> sz div 8" "8 * (sz div 8) \<le> sz"
    using small_quotients(1) [OF sz] div_bounds(1) [of sz] by simp_all
  have s: "0 < s" "s + 2 \<le> sz" using m sz unfolding s_def by linarith+
  have "\<bar>s\<bar> \<le> \<bar>X\<bar>" using px s unfolding X_def by auto
  then have X: "s\<^sup>2 \<le> X\<^sup>2" by (simp only: abs_le_square_iff)
  have "\<bar>s\<bar> \<le> \<bar>Y\<bar>" using py s unfolding Y_def by auto
  then have Y: "s\<^sup>2 \<le> Y\<^sup>2" by (simp only: abs_le_square_iff)
  have sq: "0 < s\<^sup>2" using s by simp
  have pos: "0 < s\<^sup>2 * s\<^sup>2" by (rule mult_pos_pos [OF sq sq])
  have a: "s\<^sup>2 * s\<^sup>2 \<le> X\<^sup>2 * s\<^sup>2"
    by (rule mult_right_mono [OF X]) simp
  have b: "s\<^sup>2 * s\<^sup>2 \<le> Y\<^sup>2 * s\<^sup>2"
    by (rule mult_right_mono [OF Y]) simp
  have "\<not> (X * s)\<^sup>2 + (Y * s)\<^sup>2 \<le> (s * s)\<^sup>2"
    unfolding power_mult_distrib using pos a b by linarith
  then show ?thesis
    unfolding in_ellipse_def Let_def X_def Y_def s_def by simp
qed




subsection \<open>The derived scalars\<close>


subsection \<open>The trend line\<close>


text \<open>
  Claim C10. For every size of at least 16, the four vertices of the trend line have
  strictly increasing abscissas, P0.x < P1.x < P2.x < P3.x: the line runs from left to
  right, floor division notwithstanding.
\<close>

theorem polyline_left_to_right:
  assumes "16 \<le> sz"
  shows "length (polyline (calls_made sz)) = 4
    \<and> sorted_wrt (<) (map fst (polyline (calls_made sz)))"
proof -
  have "sz div 8 + sz div 6 < sz div 2 - sz div 10"
    and "sz div 2 - sz div 10 < sz div 2 + sz div 10"
    and "sz div 2 + sz div 10 < sz - sz div 8 - sz div 6"
    using assms div_bounds [of sz] by linarith+
  then have "sorted_wrt (<) [sz div 8 + sz div 6, sz div 2 - sz div 10,
      sz div 2 + sz div 10, sz - sz div 8 - sz div 6]"
    by (rule sorted_wrt_4)
  then have "sorted_wrt (<) (map fst (polyline (calls_made sz)))"
    by (simp only: polyline_calls_made list.map fst_conv)
  moreover have "length (polyline (calls_made sz)) = 4"
    by (simp only: polyline_calls_made) simp
  ultimately show ?thesis by simp
qed

theorem polyline_left_to_right_witness:
  "(16::int) \<le> 16 \<and> length (polyline (calls_made 16)) = 4
     \<and> sorted_wrt (<) (map fst (polyline (calls_made 16)))"
  using polyline_left_to_right [of 16] by simp

subsection \<open>The alert line\<close>


subsection \<open>The centre pixel\<close>




subsection \<open>The corner pixels\<close>

text \<open>
  Claim C7. For every size with a positive margin (size of at least 8), every file name
  and every starting world, the four corner pixels (0, 0), (size - 1, 0),
  (0, size - 1) and (size - 1, size - 1) keep the transparent background (0,0,0,0), so
  their alpha is 0: no corner is in the ellipse (also when the margin is 1 and the
  corner of the canvas is the corner of the box), and every segment stays away from the
  left, the upper and the lower edge by more than half its width.
\<close>

theorem corners_transparent:
  assumes "8 \<le> sz"
  shows "pixel (saved_calls (create_icon recorder sz filename w) filename) (0, 0) = (0, 0, 0, 0)
    \<and> pixel (saved_calls (create_icon recorder sz filename w) filename) (sz - 1, 0) = (0, 0, 0, 0)
    \<and> pixel (saved_calls (create_icon recorder sz filename w) filename) (0, sz - 1) = (0, 0, 0, 0)
    \<and> pixel (saved_calls (create_icon recorder sz filename w) filename) (sz - 1, sz - 1)
        = (0, 0, 0, 0)"
proof -
  note left = lines_right_of_left_edge [OF assms refl refl]
    and top = lines_below_top_edge [OF assms refl refl]
    and bottom = lines_above_bottom_edge [OF assms refl refl]
  have "pixel (calls_made sz) (0, 0) = (0, 0, 0, 0)"
    using left [of 0] corner_outside_ellipse [OF assms, of 0 0]
    by (simp add: pixel_calls_made Let_def)
  moreover have "pixel (calls_made sz) (sz - 1, 0) = (0, 0, 0, 0)"
    using top [of "sz - 1"] corner_outside_ellipse [OF assms, of "sz - 1" 0]
    by (simp add: pixel_calls_made Let_def)
  moreover have "pixel (calls_made sz) (0, sz - 1) = (0, 0, 0, 0)"
    using left [of "sz - 1"] corner_outside_ellipse [OF assms, of 0 "sz - 1"]
    by (simp add: pixel_calls_made Let_def)
  moreover have "pixel (calls_made sz) (sz - 1, sz - 1) = (0, 0, 0, 0)"
    using bottom [of "sz - 1"] corner_outside_ellipse [OF assms, of "sz - 1" "sz - 1"]
    by (simp add: pixel_calls_made Let_def)
  ultimately show ?thesis
    by (simp only: saved_calls_recorder)
qed

theorem corners_transparent_witness:
  "(8::int) \<le> 8
    \<and> pixel (saved_calls (create_icon recorder 8 ''icon8.png'' no_world) ''icon8.png'') (0, 0)
        = (0, 0, 0, 0)
    \<and> pixel (saved_calls (create_icon recorder 8 ''icon8.png'' no_world) ''icon8.png'') (8 - 1, 0)
        = (0, 0, 0, 0)
    \<and> pixel (saved_calls (create_icon recorder 8 ''icon8.png'' no_world) ''icon8.png'') (0, 8 - 1)
        = (0, 0, 0, 0)
    \<and> pixel (saved_calls (create_icon recorder 8 ''icon8.png'' no_world) ''icon8.png'')
          (8 - 1, 8 - 1) = (0, 0, 0, 0)"
  using corners_transparent [of 8 "''icon8.png''" no_world] by simp


subsection \<open>Non-positive sizes\<close>



subsection \<open>The file name and the image\<close>

text \<open>
  Claim C9. The image is a function of the size alone. For every library and size
  there is one outcome \<open>r\<close> of the drawing steps (an image, or the exception that ended
  them) such that, whatever the file name and the starting world, \<open>create_icon\<close> is:
  obtain \<open>r\<close>, save that image under the name, print the name. The name reaches \<open>save\<close> and
  \<open>print\<close> and nothing else.
\<close>

theorem path_noninterference:
  "\<exists>r. \<forall>filename w. create_icon lib sz filename w =
     bind_e r (\<lambda>img. bind_e (image_save lib img filename ''PNG'') (\<lambda>data.
       Inr (w\<lparr>files := (files w)(filename \<mapsto> data),
              stdout := stdout w @ [''Created '' @ filename]\<rparr>)))"
  unfolding create_icon_def Let_def
  apply (simp only: bind_e_assoc [symmetric])
  apply (rule exI)
  apply (rule allI)
  apply (rule allI)
  apply (rule refl)
  done

subsection \<open>The top level\<close>



end
